theory Spec2Isabelle
  imports Complex_Main "HOL-Library.Word" "HOL-Library.Multiset"
begin

section \<open>The fruit detection page (app.py)\<close>

text \<open>
  app.py is one Streamlit script. Streamlit executes it from top to bottom on every
  interaction of the user. Lines 1 to 104 configure the page and read three widgets
  (model path, confidence, mode); lines 106 to 224 load the detector and run the
  image branch or the video branch. The model below embeds lines 106 to 224 as a
  script over an explicit state: the process-wide resource cache, the file system and
  the list of elements the run has put on the page.
\<close>

subsection \<open>Data\<close>

type_synonym bytes = "8 word list"

text \<open>A pixel of a three-channel 8-bit image, and an image as rows of pixels.\<close>

type_synonym pixel = "8 word \<times> 8 word \<times> 8 word"
type_synonym frame = "pixel list list"

type_synonym filesystem = "string \<rightharpoonup> bytes"

datatype mode = Image | Video

text \<open>The value a file uploader returns: the declared name and the content.\<close>

record upload =
  upload_name :: string
  upload_data :: bytes

text \<open>
  One element of \<^verbatim>\<open>results\<close>: the class index \<^verbatim>\<open>int(box.cls)\<close> of every box,
  the annotated frame \<^verbatim>\<open>plot()\<close> returns, and \<^verbatim>\<open>save_dir\<close>.
\<close>

record result =
  boxes :: "int list"
  plot :: frame
  save_dir :: string

text \<open>
  The detector object: \<^verbatim>\<open>model.names\<close> and \<^verbatim>\<open>model.predict\<close>. A call of predict
  gets the source path, the confidence and the save flag, reads and may write the file
  system, and raises (the text of the exception on the left) or returns the results.
\<close>

record detector =
  names :: "int \<rightharpoonup> string"
  predict :: "string \<Rightarrow> rat \<Rightarrow> bool \<Rightarrow> filesystem \<Rightarrow> string + (result list \<times> filesystem)"

datatype exn =
    Exception string
  | IndexError
  | KeyError int
  | FileNotFoundError string
  | FileExistsError

text \<open>
  What a run puts on the page, in order. Texts are given without their leading emoji.
\<close>

datatype event =
    Error_box string
  | Warning_box string
  | Info_box string
  | Markdown string
  | File_uploader string "string list"
  | Show_image frame
  | Show_video string bytes
  | Columns nat
  | Count_card nat string nat
  | Download_button string bytes string string

text \<open>
  The external collaborators of one run: the constructor \<^verbatim>\<open>YOLO\<close>, the directory and
  the random names of \<^verbatim>\<open>tempfile\<close>, the decoder behind \<^verbatim>\<open>Image.open\<close>,
  \<^verbatim>\<open>os.listdir\<close>, and the order in which this process iterates a set of strings
  (Python leaves it open; the model iterates by increasing \<open>set_rank\<close>).
\<close>

record env =
  YOLO :: "string \<Rightarrow> string + detector"
  tempdir :: string
  random_names :: "string list"
  Image_open :: "bytes \<Rightarrow> string + frame"
  listdir :: "filesystem \<Rightarrow> string \<Rightarrow> exn + string list"
  set_rank :: "string \<Rightarrow> nat"

text \<open>The widget values of one run.\<close>

record inputs =
  model_path :: string
  conf :: rat
  mode :: mode
  uploaded :: "upload option"

record state =
  cache :: "detector option"
  fs :: filesystem
  ui :: "event list"

subsection \<open>Strings and paths\<close>

text \<open>\<^verbatim>\<open>s.split(c)\<close> for a one-character separator: never the empty list.\<close>

fun split :: "char \<Rightarrow> string \<Rightarrow> string list" where
  "split c [] = [[]]"
| "split c (x # xs) =
     (if x = c then [] # split c xs
      else (case split c xs of [] \<Rightarrow> [[x]] | y # ys \<Rightarrow> (x # y) # ys))"

definition endswith :: "string \<Rightarrow> string \<Rightarrow> bool" where
  "endswith s suf \<longleftrightarrow> length suf \<le> length s \<and> drop (length s - length suf) s = suf"

text \<open>\<^verbatim>\<open>os.path.join\<close> of two components (POSIX).\<close>

definition join :: "string \<Rightarrow> string \<Rightarrow> string" where
  "join a b =
     (if b \<noteq> [] \<and> hd b = CHR ''/'' then b
      else if a = [] \<or> last a = CHR ''/'' then a @ b
      else a @ ''/'' @ b)"

subsection \<open>Aggregation (lines 148 to 151)\<close>

text \<open>Iterating \<^verbatim>\<open>set(xs)\<close>: every element once, in the order of this process.\<close>

definition set_iter :: "(string \<Rightarrow> nat) \<Rightarrow> string list \<Rightarrow> string list" where
  "set_iter rnk xs = sort_key rnk (remdups xs)"

text \<open>
  \<^verbatim>\<open>{label: labels.count(label) for label in set(labels)}\<close>, a dict as the list of
  its items in insertion order.
\<close>

definition counts :: "(string \<Rightarrow> nat) \<Rightarrow> string list \<Rightarrow> (string \<times> nat) list" where
  "counts rnk labels = map (\<lambda>label. (label, count_list labels label)) (set_iter rnk labels)"

text \<open>The file name extension in the sense of line 182: what follows the last dot.\<close>

definition extension :: "string \<Rightarrow> string option" where
  "extension f = (if CHR ''.'' \<in> set f then Some (last (split CHR ''.'' f)) else None)"

subsection \<open>Scripts\<close>

text \<open>
  A script runs on a state and ends with a value, with \<^verbatim>\<open>st.stop()\<close> or with an
  exception that nothing caught. The state it leaves is kept in every case.
\<close>

datatype 'a outcome = Val 'a | Stop | Raise exn

type_synonym 'a script = "state \<Rightarrow> 'a outcome \<times> state"

definition return :: "'a \<Rightarrow> 'a script" where
  "return a s = (Val a, s)"

definition raise :: "exn \<Rightarrow> 'a script" where
  "raise e s = (Raise e, s)"

definition stop :: "'a script" where
  "stop s = (Stop, s)"

definition andthen :: "'a script \<Rightarrow> ('a \<Rightarrow> 'b script) \<Rightarrow> 'b script" where
  "andthen m k s =
     (case m s of
        (Val a, s') \<Rightarrow> k a s'
      | (Stop, s') \<Rightarrow> (Stop, s')
      | (Raise e, s') \<Rightarrow> (Raise e, s'))"

text \<open>A computation without effect that raises or returns.\<close>

definition lift :: "exn + 'a \<Rightarrow> 'a script" where
  "lift r = (case r of Inl e \<Rightarrow> raise e | Inr a \<Rightarrow> return a)"

definition emit :: "event \<Rightarrow> unit script" where
  "emit e s = (Val (), s\<lparr>ui := ui s @ [e]\<rparr>)"

definition emit_all :: "event list \<Rightarrow> unit script" where
  "emit_all es s = (Val (), s\<lparr>ui := ui s @ es\<rparr>)"

subsection \<open>The file system\<close>

definition temp_path :: "env \<Rightarrow> string \<Rightarrow> string \<Rightarrow> string" where
  "temp_path env suffix rnd = join (tempdir env) (''tmp'' @ rnd @ suffix)"

text \<open>
  \<^verbatim>\<open>tempfile.NamedTemporaryFile(delete=False, suffix=...)\<close>: the first drawn name
  that no file has yet is created, empty.
\<close>

definition temp_name :: "env \<Rightarrow> string \<Rightarrow> filesystem \<Rightarrow> string option" where
  "temp_name env suffix fsys =
     find (\<lambda>p. fsys p = None) (map (temp_path env suffix) (random_names env))"

definition NamedTemporaryFile :: "env \<Rightarrow> string \<Rightarrow> string script" where
  "NamedTemporaryFile env suffix s =
     (case temp_name env suffix (fs s) of
        None \<Rightarrow> (Raise FileExistsError, s)
      | Some p \<Rightarrow> (Val p, s\<lparr>fs := (fs s)(p \<mapsto> [])\<rparr>))"

definition write_file :: "string \<Rightarrow> bytes \<Rightarrow> unit script" where
  "write_file p b s = (Val (), s\<lparr>fs := (fs s)(p \<mapsto> b)\<rparr>)"

text \<open>The \<^verbatim>\<open>with\<close> blocks of lines 125 to 127 and 183 to 185.\<close>

definition write_temp :: "env \<Rightarrow> string \<Rightarrow> bytes \<Rightarrow> string script" where
  "write_temp env suffix b =
     andthen (NamedTemporaryFile env suffix) (\<lambda>tmp.
     andthen (write_file tmp b) (\<lambda>_.
     return tmp))"

definition open_rb :: "string \<Rightarrow> bytes script" where
  "open_rb p s =
     (case fs s p of None \<Rightarrow> (Raise (FileNotFoundError p), s) | Some b \<Rightarrow> (Val b, s))"

definition unlink :: "string \<Rightarrow> unit script" where
  "unlink p s =
     (case fs s p of
        None \<Rightarrow> (Raise (FileNotFoundError p), s)
      | Some b \<Rightarrow> (Val (), s\<lparr>fs := (fs s)(p := None)\<rparr>))"

definition os_listdir :: "env \<Rightarrow> string \<Rightarrow> string list script" where
  "os_listdir env d s =
     (case listdir env (fs s) d of Inl e \<Rightarrow> (Raise e, s) | Inr fnames \<Rightarrow> (Val fnames, s))"

subsection \<open>The collaborators\<close>

definition PIL_open :: "env \<Rightarrow> string \<Rightarrow> frame script" where
  "PIL_open env p =
     andthen (open_rb p) (\<lambda>b.
     case Image_open env b of Inl e \<Rightarrow> raise (Exception e) | Inr img \<Rightarrow> return img)"

text \<open>\<^verbatim>\<open>st.video(path)\<close> reads the file at the path and embeds it.\<close>

definition st_video :: "string \<Rightarrow> unit script" where
  "st_video p = andthen (open_rb p) (\<lambda>b. emit (Show_video p b))"

definition call_predict :: "detector \<Rightarrow> string \<Rightarrow> rat \<Rightarrow> bool \<Rightarrow> result list script" where
  "call_predict m source c save s =
     (case predict m source c save (fs s) of
        Inl e \<Rightarrow> (Raise (Exception e), s)
      | Inr (results, fs') \<Rightarrow> (Val results, s\<lparr>fs := fs'\<rparr>))"

text \<open>\<^verbatim>\<open>results[0]\<close>\<close>

definition first_result :: "result list \<Rightarrow> result script" where
  "first_result results = (case results of [] \<Rightarrow> raise IndexError | r # _ \<Rightarrow> return r)"

text \<open>\<^verbatim>\<open>cv2.cvtColor(img, cv2.COLOR_BGR2RGB)\<close>: the first and third channel change places.\<close>

definition cvtColor_BGR2RGB :: "frame \<Rightarrow> frame" where
  "cvtColor_BGR2RGB img = map (map (\<lambda>(b, g, r). (r, g, b))) img"

text \<open>\<^verbatim>\<open>[model.names[int(box.cls)] for box in results[0].boxes]\<close> (line 148)\<close>

fun labels_of :: "(int \<rightharpoonup> string) \<Rightarrow> int list \<Rightarrow> exn + string list" where
  "labels_of nm [] = Inr []"
| "labels_of nm (c # cs) =
     (case nm c of
        None \<Rightarrow> Inl (KeyError c)
      | Some label \<Rightarrow>
          (case labels_of nm cs of
             Inl e \<Rightarrow> Inl e
           | Inr labels \<Rightarrow> Inr (label # labels)))"

subsection \<open>The image branch (lines 118 to 172)\<close>

text \<open>Lines 125 to 127.\<close>

definition image_tempfile :: "env \<Rightarrow> upload \<Rightarrow> string script" where
  "image_tempfile env uploaded_image = write_temp env ''.jpg'' (upload_data uploaded_image)"

text \<open>Lines 158 to 168: one card in each column, in the order of the dict's items.\<close>

definition count_cards :: "(string \<times> nat) list \<Rightarrow> event list" where
  "count_cards cs =
     map (\<lambda>(col, (fruit, count)). Count_card col fruit count) (zip [0..<length cs] cs)"

text \<open>Lines 150 to 170.\<close>

definition summary :: "env \<Rightarrow> string list \<Rightarrow> unit script" where
  "summary env labels =
     (if labels \<noteq> [] then
        andthen (emit (Markdown ''Fruit Detection Summary'')) (\<lambda>_.
        andthen (emit (Columns (length (counts (set_rank env) labels)))) (\<lambda>_.
        emit_all (count_cards (counts (set_rank env) labels))))
      else emit (Warning_box ''No fruits detected''))"

definition image_mode :: "env \<Rightarrow> inputs \<Rightarrow> detector \<Rightarrow> unit script" where
  "image_mode env inp model =
     andthen (emit (File_uploader ''Upload an Image'' [''jpg'', ''jpeg'', ''png''])) (\<lambda>_.
     case uploaded inp of
       None \<Rightarrow> return ()
     | Some uploaded_image \<Rightarrow>
         andthen (image_tempfile env uploaded_image) (\<lambda>img_path.
         andthen (emit (Markdown ''Original Image'')) (\<lambda>_.
         andthen (PIL_open env img_path) (\<lambda>original_img.
         andthen (emit (Show_image original_img)) (\<lambda>_.
         andthen (emit (Info_box ''Detecting fruits...'')) (\<lambda>_.
         andthen (call_predict model img_path (conf inp) False) (\<lambda>results.
         andthen (first_result results) (\<lambda>r.
         andthen (emit (Markdown ''Detected Image'')) (\<lambda>_.
         andthen (emit (Show_image (cvtColor_BGR2RGB (plot r)))) (\<lambda>_.
         andthen (first_result results) (\<lambda>r'.
         andthen (lift (labels_of (names model) (boxes r'))) (\<lambda>labels.
         andthen (summary env labels) (\<lambda>_.
         unlink img_path)))))))))))))"

subsection \<open>The video branch (lines 175 to 224)\<close>

text \<open>\<^verbatim>\<open>f.endswith(('.mp4', '.avi', '.mov', '.mkv'))\<close>\<close>

definition is_pred_video :: "string \<Rightarrow> bool" where
  "is_pred_video f \<longleftrightarrow> list_ex (endswith f) [''.mp4'', ''.avi'', ''.mov'', ''.mkv'']"

text \<open>Lines 203 to 222, on \<^verbatim>\<open>pred_dir\<close>.\<close>

definition show_processed :: "env \<Rightarrow> string \<Rightarrow> unit script" where
  "show_processed env pred_dir =
     andthen (os_listdir env pred_dir) (\<lambda>fnames.
     case filter is_pred_video fnames of
       f # _ \<Rightarrow>
         andthen (emit (Markdown ''Processed Video'')) (\<lambda>_.
         andthen (st_video (join pred_dir f)) (\<lambda>_.
         andthen (open_rb (join pred_dir f)) (\<lambda>content.
         emit (Download_button ''Download Processed Video'' content
                 ''detected_fruit_video.mp4'' ''video/mp4''))))
     | [] \<Rightarrow> emit (Warning_box ''Processed video not found''))"

text \<open>Line 182 with the suffix of line 183.\<close>

definition video_suffix :: "string \<Rightarrow> string" where
  "video_suffix fname = ''.'' @ last (split CHR ''.'' fname)"

text \<open>Lines 182 to 185.\<close>

definition video_tempfile :: "env \<Rightarrow> upload \<Rightarrow> string script" where
  "video_tempfile env uploaded_video =
     write_temp env (video_suffix (upload_name uploaded_video)) (upload_data uploaded_video)"

definition video_mode :: "env \<Rightarrow> inputs \<Rightarrow> detector \<Rightarrow> unit script" where
  "video_mode env inp model =
     andthen (emit (File_uploader ''Upload a Video'' [''mp4'', ''mov'', ''avi'', ''mkv''])) (\<lambda>_.
     case uploaded inp of
       None \<Rightarrow> return ()
     | Some uploaded_video \<Rightarrow>
         andthen (video_tempfile env uploaded_video) (\<lambda>video_path.
         andthen (emit (Markdown ''Original Video'')) (\<lambda>_.
         andthen (st_video video_path) (\<lambda>_.
         andthen (emit (Info_box ''Processing video...'')) (\<lambda>_.
         andthen (call_predict model video_path (conf inp) True) (\<lambda>results.
         andthen (first_result results) (\<lambda>r.
         andthen (show_processed env (save_dir r)) (\<lambda>_.
         unlink video_path))))))))"

subsection \<open>Loading the detector (lines 107 to 115) and the whole run\<close>

text \<open>
  \<^verbatim>\<open>load_model\<close> has no parameter, so \<^verbatim>\<open>st.cache_resource\<close> keeps one entry for
  it: a call returns the entry when there is one, and runs the body and stores what it
  returns otherwise. A body that raises stores nothing.
\<close>

definition load_model :: "env \<Rightarrow> string \<Rightarrow> state \<Rightarrow> (string + detector) \<times> state" where
  "load_model env path s =
     (case cache s of
        Some m \<Rightarrow> (Inr m, s)
      | None \<Rightarrow>
          (case YOLO env path of
             Inl e \<Rightarrow> (Inl e, s)
           | Inr m \<Rightarrow> (Inr m, s\<lparr>cache := Some m\<rparr>)))"

definition app :: "env \<Rightarrow> inputs \<Rightarrow> unit script" where
  "app env inp s =
     (case load_model env (model_path inp) s of
        (Inl e, s') \<Rightarrow>
          andthen (emit (Error_box (''Could not load model: '' @ e))) (\<lambda>_. stop) s'
      | (Inr model, s') \<Rightarrow>
          (case mode inp of
             Image \<Rightarrow> image_mode env inp model s'
           | Video \<Rightarrow> video_mode env inp model s'))"

text \<open>One run of the script starts with an empty page.\<close>

definition run :: "env \<Rightarrow> inputs \<Rightarrow> state \<Rightarrow> unit outcome \<times> state" where
  "run env inp s = app env inp (s\<lparr>ui := []\<rparr>)"

text \<open>A script that leaves the resource cache as it found it.\<close>

definition keeps_cache :: "'a script \<Rightarrow> bool" where
  "keeps_cache m \<longleftrightarrow> (\<forall>s. cache (snd (m s)) = cache s)"

text \<open>The runs of one process, one after the other; the state is handed on.\<close>

fun session :: "(env \<times> inputs) list \<Rightarrow> state \<Rightarrow> state" where
  "session [] s = s"
| "session ((env, inp) # rest) s = session rest (snd (run env inp s))"

subsection \<open>A small installation\<close>

text \<open>
  A detector with two classes that finds two apples and a banana in every image and
  writes one \<^verbatim>\<open>.avi\<close> file for every video, in an environment where only
  \<^verbatim>\<open>best.pt\<close> is a readable model.
\<close>

definition demo_detector :: detector where
  "demo_detector =
     \<lparr>names = [0 \<mapsto> ''apple'', 1 \<mapsto> ''banana''],
      predict = (\<lambda>source c save fsys.
        if save
        then Inr ([\<lparr>boxes = [], plot = [], save_dir = ''runs/detect/fruit_ui''\<rparr>],
                  fsys(''runs/detect/fruit_ui/tmpab12.avi'' \<mapsto> [7, 7]))
        else Inr ([\<lparr>boxes = [0, 1, 0], plot = [[(1, 2, 3)]],
                    save_dir = ''runs/detect/fruit_ui''\<rparr>], fsys))\<rparr>"

definition demo_env :: env where
  "demo_env =
     \<lparr>YOLO = (\<lambda>p. if p = ''best.pt'' then Inr demo_detector else Inl ''No such file''),
      tempdir = ''/tmp'',
      random_names = [''ab12''],
      Image_open = (\<lambda>b. Inr [[(9, 9, 9)]]),
      listdir = (\<lambda>fsys d.
        if d = ''runs/detect/fruit_ui'' then Inr [''labels.txt'', ''tmpab12.avi'']
        else if d = ''runs/detect/empty'' then Inr [''labels.txt'']
        else Inl (FileNotFoundError d)),
      set_rank = length\<rparr>"

definition cold_state :: state where
  "cold_state = \<lparr>cache = None, fs = Map.empty, ui = []\<rparr>"

definition warm_state :: state where
  "warm_state = \<lparr>cache = Some demo_detector, fs = Map.empty, ui = []\<rparr>"

definition image_inputs :: inputs where
  "image_inputs =
     \<lparr>model_path = ''best.pt'', conf = 2 / 5, mode = Image,
      uploaded = Some \<lparr>upload_name = ''basket.png'', upload_data = [1, 2]\<rparr>\<rparr>"

definition video_inputs :: inputs where
  "video_inputs =
     \<lparr>model_path = ''best.pt'', conf = 2 / 5, mode = Video,
      uploaded = Some \<lparr>upload_name = ''my.clip.mp4'', upload_data = [1, 2]\<rparr>\<rparr>"

section \<open>Properties\<close>

lemma set_set_iter: "set (set_iter rnk xs) = set xs"
  by (simp add: set_iter_def)

lemma distinct_set_iter: "distinct (set_iter rnk xs)"
  by (simp add: set_iter_def)

lemma keys_counts: "map fst (counts rnk labels) = set_iter rnk labels"
  by (simp add: counts_def comp_def)

lemma map_of_counts:
  "map_of (counts rnk labels) l = (if l \<in> set labels then Some (count_list labels l) else None)"
proof -
  have "map_of (map (\<lambda>k. (k, f k)) ks) l = (if l \<in> set ks then Some (f l) else None)"
    for f :: "string \<Rightarrow> nat" and ks
    by (induction ks) auto
  then show ?thesis
    by (simp add: counts_def set_set_iter)
qed

lemma count_list_pos: "l \<in> set L \<Longrightarrow> 0 < count_list L l"
  by (induction L) auto

subsection \<open>Aggregation\<close>

text \<open>
  Every enumeration of the distinct labels is the iteration order for some rank, so a
  statement about \<open>counts\<close> for all ranks covers every order in which Python may
  iterate the set.
\<close>

lemma position_nth:
  assumes "x \<in> set ks"
  shows "length (takeWhile (\<lambda>y. y \<noteq> x) ks) < length ks"
    and "ks ! length (takeWhile (\<lambda>y. y \<noteq> x) ks) = x"
proof -
  show l: "length (takeWhile (\<lambda>y. y \<noteq> x) ks) < length ks"
    using assms by (induction ks) auto
  from nth_length_takeWhile [OF l] show "ks ! length (takeWhile (\<lambda>y. y \<noteq> x) ks) = x"
    by simp
qed

lemma filter_eq_single: "distinct zs \<Longrightarrow> k \<in> set zs \<Longrightarrow> filter (\<lambda>x. k = x) zs = [k]"
  by (induction zs) (auto simp: filter_empty_conv)

lemma set_iter_any_order:
  assumes "distinct ks" and "set ks = set xs"
  shows "\<exists>rnk. set_iter rnk xs = ks"
proof -
  define rnk where "rnk x = length (takeWhile (\<lambda>y. y \<noteq> x) ks)" for x
  have nth: "ks ! rnk x = x" and less: "rnk x < length ks" if "x \<in> set ks" for x
    using position_nth [OF that] by (simp_all add: rnk_def)
  have idx: "rnk (ks ! i) = i" if "i < length ks" for i
  proof -
    from that have mem: "ks ! i \<in> set ks" by simp
    from nth_eq_iff_index_eq [OF assms(1) less [OF mem] that] nth [OF mem]
    show ?thesis by blast
  qed
  have sorted: "sorted (map rnk ks)"
    unfolding sorted_iff_nth_mono
  proof (intro allI impI)
    fix i j
    assume "i \<le> j" and "j < length (map rnk ks)"
    then have "i < length ks" and "j < length ks" by simp_all
    then have "map rnk ks ! i = i" and "map rnk ks ! j = j"
      using idx by (simp_all only: nth_map)
    with \<open>i \<le> j\<close> show "map rnk ks ! i \<le> map rnk ks ! j" by simp
  qed
  have inj: "a = b" if "a \<in> set ks" "b \<in> set ks" "rnk a = rnk b" for a b
    using that nth [of a] nth [of b] by metis
  have m: "mset ks = mset (remdups xs)"
    using assms by (simp add: set_eq_iff_mset_eq_distinct [symmetric])
  have "sort_key rnk (remdups xs) = ks"
  proof (rule properties_for_sort_key [OF m _ sorted])
    fix k
    assume k: "k \<in> set ks"
    have same: "filter (\<lambda>x. rnk k = rnk x) zs = filter (\<lambda>x. k = x) zs" if "set zs = set ks" for zs
    proof (rule filter_cong [OF refl])
      fix x assume "x \<in> set zs"
      with that have "x \<in> set ks" by simp
      with k inj show "(rnk k = rnk x) = (k = x)" by blast
    qed
    have "filter (\<lambda>x. rnk k = rnk x) ks = [k]"
      using same [of ks] filter_eq_single [OF assms(1) k] by simp
    moreover have "filter (\<lambda>x. rnk k = rnk x) (remdups xs) = [k]"
      using same [of "remdups xs"] filter_eq_single [of "remdups xs" k] assms(2) k by simp
    ultimately show "filter (\<lambda>x. rnk k = rnk x) ks = filter (\<lambda>x. rnk k = rnk x) (remdups xs)"
      by simp
  qed
  then show ?thesis
    unfolding set_iter_def by blast
qed

text \<open>
  C1. For every list of labels of one image, the dict built in line 151 has exactly the
  distinct labels of the list as its keys, each once, the value of a key is the number
  of times the label occurs in the list, and no value is zero, whatever the order in
  which the set of labels is iterated.
\<close>

theorem counts_exact:
  "distinct (map fst (counts rnk L)) \<and>
   set (map fst (counts rnk L)) = set L \<and>
   (\<forall>l. map_of (counts rnk L) l = (if l \<in> set L then Some (count_list L l) else None)) \<and>
   (\<forall>(l, c) \<in> set (counts rnk L). c = count_list L l \<and> 0 < c)"
proof -
  have "\<forall>(l, c) \<in> set (counts rnk L). c = count_list L l \<and> 0 < c"
    by (auto simp: counts_def set_set_iter count_list_pos)
  then show ?thesis
    by (simp add: keys_counts distinct_set_iter set_set_iter map_of_counts)
qed

theorem counts_exact_witness:
  "map_of (counts length [''apple'', ''fig'', ''apple'']) ''apple'' = Some 2 \<and>
   map_of (counts length [''apple'', ''fig'', ''apple'']) ''kiwi'' = None \<and>
   map fst (counts length [''apple'', ''fig'', ''apple'']) = [''fig'', ''apple'']"
  using counts_exact [of length "[''apple'', ''fig'', ''apple'']"]
  by (simp add: counts_def set_iter_def)

text \<open>
  C7. Aggregation is deterministic: two runs that get the same list of labels build the
  same mapping (the same items), also when the two processes iterate sets in different
  orders.
\<close>

theorem counts_deterministic:
  "map_of (counts rnk1 L) = map_of (counts rnk2 L) \<and> set (counts rnk1 L) = set (counts rnk2 L)"
proof
  show "map_of (counts rnk1 L) = map_of (counts rnk2 L)"
    by (rule ext) (simp add: map_of_counts)
  show "set (counts rnk1 L) = set (counts rnk2 L)"
    by (simp add: counts_def set_set_iter)
qed

text \<open>
  C2. For the empty list of labels the aggregation is the empty mapping, and lines 150 to
  170 then put the one notice that nothing was detected on the page: no heading, no
  columns and no count card.
\<close>

theorem empty_summary:
  "counts rnk [] = [] \<and>
   summary env [] s = (Val (), s\<lparr>ui := ui s @ [Warning_box ''No fruits detected'']\<rparr>)"
  by (simp add: counts_def set_iter_def summary_def emit_def)

subsection \<open>Names, extensions and temporary files\<close>

lemma split_not_Nil: "split c s \<noteq> []"
  by (induction s) (auto split: list.splits)

lemma split_no_sep: "c \<notin> set s \<Longrightarrow> split c s = [s]"
  by (induction s) auto

lemma split_two: "c \<in> set s \<Longrightarrow> \<exists>y z zs. split c s = y # z # zs"
proof (induction s)
  case Nil
  then show ?case by simp
next
  case (Cons x xs)
  show ?case
  proof (cases "x = c")
    case True
    then show ?thesis
      using split_not_Nil [of c xs] by (cases "split c xs") auto
  next
    case False
    with Cons show ?thesis by auto
  qed
qed

lemma last_split: "c \<notin> set e \<Longrightarrow> last (split c (base @ c # e)) = e"
proof (induction base)
  case Nil
  then show ?case by (simp add: split_no_sep)
next
  case (Cons x xs)
  have "c \<in> set (xs @ c # e)" by simp
  then obtain y z zs where "split c (xs @ c # e) = y # z # zs"
    using split_two by blast
  with Cons show ?case by auto
qed

lemma extension_append: "CHR ''.'' \<notin> set e \<Longrightarrow> extension (base @ CHR ''.'' # e) = Some e"
  by (simp add: extension_def last_split)

lemma extension_SomeD:
  assumes "extension f = Some e"
  shows "\<exists>base. f = base @ ''.'' @ e \<and> CHR ''.'' \<notin> set e"
proof -
  from assms have dot: "CHR ''.'' \<in> set f" and e: "e = last (split CHR ''.'' f)"
    by (auto simp: extension_def split: if_splits)
  from dot obtain ys zs where f: "f = ys @ CHR ''.'' # zs" and zs: "CHR ''.'' \<notin> set zs"
    using split_list_last by fastforce
  with e have "e = zs" by (simp add: last_split)
  with f zs show ?thesis by auto
qed

lemma endswith_iff: "endswith s suf \<longleftrightarrow> (\<exists>base. s = base @ suf)"
proof
  assume "endswith s suf"
  then have "s = take (length s - length suf) s @ suf"
    by (metis append_take_drop_id endswith_def)
  then show "\<exists>base. s = base @ suf" ..
next
  assume "\<exists>base. s = base @ suf"
  then show "endswith s suf" by (auto simp: endswith_def)
qed

lemma endswith_extension:
  assumes "CHR ''.'' \<notin> set e"
  shows "endswith f (''.'' @ e) \<longleftrightarrow> extension f = Some e"
proof
  assume "endswith f (''.'' @ e)"
  then obtain base where "f = base @ ''.'' @ e" by (auto simp: endswith_iff)
  with assms show "extension f = Some e" by (simp add: extension_append)
next
  assume "extension f = Some e"
  then show "endswith f (''.'' @ e)"
    using extension_SomeD endswith_iff by blast
qed

lemma is_pred_video_iff:
  "is_pred_video f \<longleftrightarrow> extension f \<in> {Some ''mp4'', Some ''avi'', Some ''mov'', Some ''mkv''}"
proof -
  have "endswith f ''.mp4'' \<longleftrightarrow> extension f = Some ''mp4''"
    using endswith_extension [of "''mp4''" f] by simp
  moreover have "endswith f ''.avi'' \<longleftrightarrow> extension f = Some ''avi''"
    using endswith_extension [of "''avi''" f] by simp
  moreover have "endswith f ''.mov'' \<longleftrightarrow> extension f = Some ''mov''"
    using endswith_extension [of "''mov''" f] by simp
  moreover have "endswith f ''.mkv'' \<longleftrightarrow> extension f = Some ''mkv''"
    using endswith_extension [of "''mkv''" f] by simp
  ultimately show ?thesis
    by (simp add: is_pred_video_def)
qed

lemma join_ends: "b \<noteq> [] \<Longrightarrow> \<exists>pre. join a b = pre @ b"
  by (auto simp: join_def)

lemma extension_temp_path:
  assumes "CHR ''.'' \<notin> set e"
  shows "extension (temp_path env (''.'' @ e) rnd) = Some e"
proof -
  obtain pre where "join (tempdir env) (''tmp'' @ rnd @ ''.'' @ e) = pre @ ''tmp'' @ rnd @ ''.'' @ e"
    using join_ends [of "''tmp'' @ rnd @ ''.'' @ e" "tempdir env"] by auto
  then have "temp_path env (''.'' @ e) rnd = (pre @ ''tmp'' @ rnd) @ ''.'' @ e"
    by (simp add: temp_path_def)
  with assms show ?thesis
    using extension_append [of e "pre @ ''tmp'' @ rnd"] by simp
qed

lemma temp_name_SomeD:
  assumes "temp_name env suffix fsys = Some p"
  shows "fsys p = None" and "\<exists>rnd \<in> set (random_names env). p = temp_path env suffix rnd"
  using assms by (auto simp: temp_name_def find_Some_iff)

lemma write_temp_Some:
  "temp_name env suffix (fs s) = Some p \<Longrightarrow>
   write_temp env suffix b s = (Val p, s\<lparr>fs := (fs s)(p \<mapsto> b)\<rparr>)"
  by (simp add: write_temp_def NamedTemporaryFile_def write_file_def andthen_def return_def)

lemma write_temp_None:
  "temp_name env suffix (fs s) = None \<Longrightarrow> write_temp env suffix b s = (Raise FileExistsError, s)"
  by (simp add: write_temp_def NamedTemporaryFile_def andthen_def)

lemma video_suffix_append:
  "CHR ''.'' \<notin> set e \<Longrightarrow> video_suffix (base @ CHR ''.'' # e) = CHR ''.'' # e"
  by (simp add: video_suffix_def last_split)

text \<open>
  C8. Input acquisition writes the uploaded bytes to a temporary file that no file had
  the name of. In the image branch the name of the file has the extension jpg, whatever
  was uploaded; in the video branch it has the extension of the uploaded name (the text
  after its last dot; the uploader admits mp4, mov, avi and mkv).
\<close>

theorem upload_tempfile:
  "(temp_name env ''.jpg'' (fs s) = Some p \<longrightarrow>
      image_tempfile env up s = (Val p, s\<lparr>fs := (fs s)(p \<mapsto> upload_data up)\<rparr>) \<and>
      fs s p = None \<and> extension p = Some ''jpg'') \<and>
   (upload_name up = base @ ''.'' @ e \<and> CHR ''.'' \<notin> set e \<and>
    temp_name env (''.'' @ e) (fs s) = Some q \<longrightarrow>
      video_tempfile env up s = (Val q, s\<lparr>fs := (fs s)(q \<mapsto> upload_data up)\<rparr>) \<and>
      fs s q = None \<and> extension q = Some e)"
proof (intro conjI impI)
  assume p: "temp_name env ''.jpg'' (fs s) = Some p"
  then show "image_tempfile env up s = (Val p, s\<lparr>fs := (fs s)(p \<mapsto> upload_data up)\<rparr>)"
    by (simp add: image_tempfile_def write_temp_Some)
  from p show "fs s p = None" by (rule temp_name_SomeD)
  from temp_name_SomeD(2) [OF p] show "extension p = Some ''jpg''"
    using extension_temp_path [of "''jpg''" env] by auto
next
  assume a: "upload_name up = base @ ''.'' @ e \<and> CHR ''.'' \<notin> set e \<and>
    temp_name env (''.'' @ e) (fs s) = Some q"
  then have suf: "video_suffix (upload_name up) = ''.'' @ e"
    by (simp add: video_suffix_append)
  with a show "video_tempfile env up s = (Val q, s\<lparr>fs := (fs s)(q \<mapsto> upload_data up)\<rparr>)"
    by (simp add: video_tempfile_def write_temp_Some)
  from a show "fs s q = None" by (auto dest: temp_name_SomeD)
  from a temp_name_SomeD(2) [of env "''.'' @ e" "fs s" q] show "extension q = Some e"
    using extension_temp_path [of e env] by auto
qed

theorem upload_tempfile_witness:
  "image_tempfile demo_env \<lparr>upload_name = ''basket.png'', upload_data = [1, 2]\<rparr> cold_state =
     (Val ''/tmp/tmpab12.jpg'', cold_state\<lparr>fs := (fs cold_state)(''/tmp/tmpab12.jpg'' \<mapsto> [1, 2])\<rparr>) \<and>
   extension ''/tmp/tmpab12.jpg'' = Some ''jpg'' \<and>
   video_tempfile demo_env \<lparr>upload_name = ''my.clip.mp4'', upload_data = [1, 2]\<rparr> cold_state =
     (Val ''/tmp/tmpab12.mp4'', cold_state\<lparr>fs := (fs cold_state)(''/tmp/tmpab12.mp4'' \<mapsto> [1, 2])\<rparr>) \<and>
   extension ''/tmp/tmpab12.mp4'' = Some ''mp4''"
proof -
  have 1: "temp_name demo_env ''.jpg'' (fs cold_state) = Some ''/tmp/tmpab12.jpg''"
    by (simp add: temp_name_def temp_path_def join_def demo_env_def cold_state_def)
  have 2: "upload_name \<lparr>upload_name = ''my.clip.mp4'', upload_data = [1, 2]\<rparr> = ''my.clip'' @ ''.'' @ ''mp4'' \<and>
     CHR ''.'' \<notin> set ''mp4'' \<and>
     temp_name demo_env (''.'' @ ''mp4'') (fs cold_state) = Some ''/tmp/tmpab12.mp4''"
    by (simp add: temp_name_def temp_path_def join_def demo_env_def cold_state_def)
  from 1 2 upload_tempfile [of demo_env cold_state "''/tmp/tmpab12.jpg''" 
      "\<lparr>upload_name = ''basket.png'', upload_data = [1, 2]\<rparr>" 
      "''my.clip''" "''mp4''" "''/tmp/tmpab12.mp4''"]
  upload_tempfile [of demo_env cold_state "''/tmp/tmpab12.jpg''" 
      "\<lparr>upload_name = ''my.clip.mp4'', upload_data = [1, 2]\<rparr>" 
      "''my.clip''" "''mp4''" "''/tmp/tmpab12.mp4''"]
  show ?thesis by simp
qed

subsection \<open>Running scripts\<close>

lemma andthen_Val_iff:
  "andthen m k s = (Val b, s') \<longleftrightarrow> (\<exists>a s1. m s = (Val a, s1) \<and> k a s1 = (Val b, s'))"
  by (auto simp: andthen_def split: prod.splits outcome.splits)

lemma andthen_Val: "m s = (Val a, s1) \<Longrightarrow> andthen m k s = k a s1"
  by (simp add: andthen_def)

lemma andthen_emit: "andthen (emit e) k s = k () (s\<lparr>ui := ui s @ [e]\<rparr>)"
  by (simp add: andthen_def emit_def)

lemma emit_Val_iff: "emit e s = (Val u, s') \<longleftrightarrow> s' = s\<lparr>ui := ui s @ [e]\<rparr>"
  by (auto simp: emit_def)

lemma return_Val_iff: "return a s = (Val b, s') \<longleftrightarrow> b = a \<and> s' = s"
  by (auto simp: return_def)

lemma lift_Val_iff: "lift r s = (Val a, s') \<longleftrightarrow> r = Inr a \<and> s' = s"
  by (auto simp: lift_def raise_def return_def split: sum.splits)

lemma write_temp_Val_iff:
  "write_temp env suffix b s = (Val p, s') \<longleftrightarrow>
   temp_name env suffix (fs s) = Some p \<and> s' = s\<lparr>fs := (fs s)(p \<mapsto> b)\<rparr>"
  by (cases "temp_name env suffix (fs s)") (auto simp: write_temp_Some write_temp_None)

lemma open_rb_Val_iff: "open_rb p s = (Val b, s') \<longleftrightarrow> fs s p = Some b \<and> s' = s"
  by (auto simp: open_rb_def split: option.splits)

lemma unlink_Val_iff:
  "unlink p s = (Val u, s') \<longleftrightarrow> fs s p \<noteq> None \<and> s' = s\<lparr>fs := (fs s)(p := None)\<rparr>"
  by (auto simp: unlink_def split: option.splits)

lemma os_listdir_Val_iff:
  "os_listdir env d s = (Val fnames, s') \<longleftrightarrow> listdir env (fs s) d = Inr fnames \<and> s' = s"
  by (auto simp: os_listdir_def split: sum.splits)

lemma PIL_open_Val_iff:
  "PIL_open env p s = (Val img, s') \<longleftrightarrow>
   (\<exists>b. fs s p = Some b \<and> Image_open env b = Inr img) \<and> s' = s"
proof -
  have "(case Image_open env b of Inl e \<Rightarrow> raise (Exception e) | Inr img \<Rightarrow> return img) s =
        (Val img, s') \<longleftrightarrow> Image_open env b = Inr img \<and> s' = s" for b
    by (cases "Image_open env b") (auto simp: raise_def return_def)
  then show ?thesis
    by (auto simp: PIL_open_def andthen_Val_iff open_rb_Val_iff)
qed

lemma st_video_Val_iff:
  "st_video p s = (Val u, s') \<longleftrightarrow>
   (\<exists>b. fs s p = Some b \<and> s' = s\<lparr>ui := ui s @ [Show_video p b]\<rparr>)"
  by (auto simp: st_video_def andthen_Val_iff open_rb_Val_iff emit_Val_iff)

lemma call_predict_Val_iff:
  "call_predict m source c save s = (Val results, s') \<longleftrightarrow>
   (\<exists>fs'. predict m source c save (fs s) = Inr (results, fs') \<and> s' = s\<lparr>fs := fs'\<rparr>)"
  by (auto simp: call_predict_def split: sum.splits)

lemma first_result_Val_iff:
  "first_result results s = (Val r, s') \<longleftrightarrow> (\<exists>rest. results = r # rest) \<and> s' = s"
  by (auto simp: first_result_def raise_def return_def split: list.splits)

lemma summary_eq:
  "summary env labels s =
     (Val (), s\<lparr>ui := ui s @
        (if labels \<noteq> []
         then Markdown ''Fruit Detection Summary'' #
              Columns (length (counts (set_rank env) labels)) #
              count_cards (counts (set_rank env) labels)
         else [Warning_box ''No fruits detected''])\<rparr>)"
  by (simp add: summary_def andthen_emit emit_all_def emit_def)

lemmas Val_iffs = andthen_Val_iff emit_Val_iff return_Val_iff lift_Val_iff write_temp_Val_iff
  open_rb_Val_iff unlink_Val_iff os_listdir_Val_iff PIL_open_Val_iff st_video_Val_iff
  call_predict_Val_iff first_result_Val_iff

lemma image_mode_Val_iff:
  assumes "uploaded inp = Some up"
  shows "image_mode env inp m s = (Val (), s') \<longleftrightarrow>
    (\<exists>p img r rest fs2 labels.
       temp_name env ''.jpg'' (fs s) = Some p \<and>
       Image_open env (upload_data up) = Inr img \<and>
       predict m p (conf inp) False ((fs s)(p \<mapsto> upload_data up)) = Inr (r # rest, fs2) \<and>
       labels_of (names m) (boxes r) = Inr labels \<and>
       fs2 p \<noteq> None \<and>
       s' = s\<lparr>fs := fs2(p := None),
              ui := ui s @
                [File_uploader ''Upload an Image'' [''jpg'', ''jpeg'', ''png''],
                 Markdown ''Original Image'', Show_image img,
                 Info_box ''Detecting fruits...'', Markdown ''Detected Image'',
                 Show_image (cvtColor_BGR2RGB (plot r))] @
                (if labels \<noteq> []
                 then Markdown ''Fruit Detection Summary'' #
                      Columns (length (counts (set_rank env) labels)) #
                      count_cards (counts (set_rank env) labels)
                 else [Warning_box ''No fruits detected''])\<rparr>)"
  using assms
  by (auto simp add: image_mode_def image_tempfile_def Val_iffs summary_eq
      split del: if_split)

subsection \<open>The processed video\<close>

lemma filter_find: "(case filter P xs of [] \<Rightarrow> None | x # _ \<Rightarrow> Some x) = find P xs"
  by (induction xs) auto

lemma show_processed_eq:
  assumes "listdir env (fs s) d = Inr fnames"
  shows "show_processed env d s =
    (case find is_pred_video fnames of
       None \<Rightarrow> (Val (), s\<lparr>ui := ui s @ [Warning_box ''Processed video not found'']\<rparr>)
     | Some f \<Rightarrow>
         (case fs s (join d f) of
            None \<Rightarrow> (Raise (FileNotFoundError (join d f)),
                      s\<lparr>ui := ui s @ [Markdown ''Processed Video'']\<rparr>)
          | Some content \<Rightarrow>
              (Val (), s\<lparr>ui := ui s @
                 [Markdown ''Processed Video'', Show_video (join d f) content,
                  Download_button ''Download Processed Video'' content
                    ''detected_fruit_video.mp4'' ''video/mp4'']\<rparr>)))"
proof -
  have l: "os_listdir env d s = (Val fnames, s)"
    using assms by (simp add: os_listdir_def)
  show ?thesis
  proof (cases "filter is_pred_video fnames")
    case Nil
    then have "find is_pred_video fnames = None"
      using filter_find [of is_pred_video fnames] by simp
    with Nil l show ?thesis
      by (simp add: show_processed_def andthen_Val emit_def)
  next
    case (Cons f rest)
    then have f: "find is_pred_video fnames = Some f"
      using filter_find [of is_pred_video fnames] by simp
    show ?thesis
    proof (cases "fs s (join d f)")
      case None
      with Cons f l show ?thesis
        by (simp add: show_processed_def andthen_Val)
          (simp add: andthen_def emit_def st_video_def open_rb_def)
    next
      case (Some content)
      with Cons f l show ?thesis
        by (simp add: show_processed_def andthen_Val)
          (simp add: andthen_def emit_def st_video_def open_rb_def)
    qed
  qed
qed

lemma find_cong_iff: "(\<And>x. P x \<longleftrightarrow> Q x) \<Longrightarrow> find P xs = find Q xs"
  by (induction xs) auto

text \<open>
  C4. In the video branch, when no name in the listing of the detector's output directory
  has one of the extensions mp4, avi, mov and mkv, the page gets the warning that the
  processed video was not found and nothing else: no file is read, no video is shown and
  no download is offered. Otherwise the first such name of the listing is the output
  video: it is shown and its content is offered for download.
\<close>

theorem processed_video_presented:
  assumes "listdir env (fs s) d = Inr fnames"
  shows "((\<forall>f \<in> set fnames.
             extension f \<notin> {Some ''mp4'', Some ''avi'', Some ''mov'', Some ''mkv''}) \<longrightarrow>
          show_processed env d s =
            (Val (), s\<lparr>ui := ui s @ [Warning_box ''Processed video not found'']\<rparr>)) \<and>
         (find (\<lambda>f. extension f \<in> {Some ''mp4'', Some ''avi'', Some ''mov'', Some ''mkv''})
            fnames = Some f \<and> fs s (join d f) = Some content \<longrightarrow>
          show_processed env d s =
            (Val (), s\<lparr>ui := ui s @
               [Markdown ''Processed Video'', Show_video (join d f) content,
                Download_button ''Download Processed Video'' content
                  ''detected_fruit_video.mp4'' ''video/mp4'']\<rparr>))"
proof -
  have eq: "find (\<lambda>f. extension f \<in> {Some ''mp4'', Some ''avi'', Some ''mov'', Some ''mkv''})
      fnames = find is_pred_video fnames"
    by (rule find_cong_iff) (simp only: is_pred_video_iff)
  show ?thesis
  proof (intro conjI impI)
    assume "\<forall>f \<in> set fnames.
      extension f \<notin> {Some ''mp4'', Some ''avi'', Some ''mov'', Some ''mkv''}"
    then have "find is_pred_video fnames = None"
      by (simp only: find_None_iff is_pred_video_iff) blast
    then show "show_processed env d s =
        (Val (), s\<lparr>ui := ui s @ [Warning_box ''Processed video not found'']\<rparr>)"
      by (simp add: show_processed_eq [OF assms])
  next
    assume "find (\<lambda>f. extension f \<in> {Some ''mp4'', Some ''avi'', Some ''mov'', Some ''mkv''})
      fnames = Some f \<and> fs s (join d f) = Some content"
    with eq have "find is_pred_video fnames = Some f" "fs s (join d f) = Some content"
      by simp_all
    then show "show_processed env d s =
        (Val (), s\<lparr>ui := ui s @
           [Markdown ''Processed Video'', Show_video (join d f) content,
            Download_button ''Download Processed Video'' content
              ''detected_fruit_video.mp4'' ''video/mp4'']\<rparr>)"
      by (simp add: show_processed_eq [OF assms])
  qed
qed

theorem processed_video_presented_witness:
  "show_processed demo_env ''runs/detect/empty'' cold_state =
     (Val (), cold_state\<lparr>ui := ui cold_state @ [Warning_box ''Processed video not found'']\<rparr>) \<and>
   show_processed demo_env ''runs/detect/fruit_ui''
       (cold_state\<lparr>fs := [''runs/detect/fruit_ui/tmpab12.avi'' \<mapsto> [7, 7]]\<rparr>) =
     (Val (), cold_state\<lparr>fs := [''runs/detect/fruit_ui/tmpab12.avi'' \<mapsto> [7, 7]],
        ui := ui cold_state @
          [Markdown ''Processed Video'',
           Show_video ''runs/detect/fruit_ui/tmpab12.avi'' [7, 7],
           Download_button ''Download Processed Video'' [7, 7]
             ''detected_fruit_video.mp4'' ''video/mp4'']\<rparr>)"
proof -
  let ?exts = "{Some ''mp4'', Some ''avi'', Some ''mov'', Some ''mkv''}"
  let ?s = "cold_state\<lparr>fs := [''runs/detect/fruit_ui/tmpab12.avi'' \<mapsto> [7, 7]]\<rparr>"
  have l1: "listdir demo_env (fs cold_state) ''runs/detect/empty'' = Inr [''labels.txt'']"
    by (simp add: demo_env_def)
  have n1: "\<forall>f \<in> set [''labels.txt'']. extension f \<notin> ?exts"
    by (simp add: extension_def)
  have l2: "listdir demo_env (fs ?s) ''runs/detect/fruit_ui'' = Inr [''labels.txt'', ''tmpab12.avi'']"
    by (simp add: demo_env_def)
  have n2: "find (\<lambda>f. extension f \<in> ?exts) [''labels.txt'', ''tmpab12.avi''] = Some ''tmpab12.avi'' \<and>
      fs ?s (join ''runs/detect/fruit_ui'' ''tmpab12.avi'') = Some [7, 7]"
    by (simp add: extension_def join_def)
  have j: "join ''runs/detect/fruit_ui'' ''tmpab12.avi'' = ''runs/detect/fruit_ui/tmpab12.avi''"
    by (simp add: join_def)
  from processed_video_presented [OF l1] n1
       processed_video_presented [OF l2, of "''tmpab12.avi''" "[7, 7]"] n2
  show ?thesis
    by (simp add: j)
qed

subsection \<open>The resource cache\<close>

lemma load_model_cached: "cache s = Some m \<Longrightarrow> load_model env path s = (Inr m, s)"
  by (simp add: load_model_def)

lemma load_model_fails:
  "cache s = None \<Longrightarrow> YOLO env path = Inl e \<Longrightarrow> load_model env path s = (Inl e, s)"
  by (simp add: load_model_def)

lemma load_model_builds:
  "cache s = None \<Longrightarrow> YOLO env path = Inr m \<Longrightarrow>
   load_model env path s = (Inr m, s\<lparr>cache := Some m\<rparr>)"
  by (simp add: load_model_def)

lemma load_model_InrD:
  assumes "fst (load_model env path s) = Inr m"
  shows "load_model env path s = (Inr m, s\<lparr>cache := Some m\<rparr>)"
proof (cases "cache s")
  case None
  with assms show ?thesis
    by (cases "YOLO env path") (simp_all add: load_model_def)
next
  case (Some m')
  with assms show ?thesis by (simp add: load_model_def)
qed

lemma keeps_cacheI: "(\<And>s. cache (snd (m s)) = cache s) \<Longrightarrow> keeps_cache m"
  by (simp add: keeps_cache_def)

lemma keeps_cacheD: "keeps_cache m \<Longrightarrow> cache (snd (m s)) = cache s"
  by (simp add: keeps_cache_def)

lemma keeps_andthen:
  assumes "keeps_cache m" and "\<And>a. keeps_cache (k a)"
  shows "keeps_cache (andthen m k)"
proof (rule keeps_cacheI)
  fix s
  obtain r s1 where m: "m s = (r, s1)" by (cases "m s")
  with assms(1) have c: "cache s1 = cache s"
    using keeps_cacheD [of m s] by simp
  show "cache (snd (andthen m k s)) = cache s"
  proof (cases r)
    case (Val a)
    with m c show ?thesis
      using keeps_cacheD [OF assms(2), of a s1] by (simp add: andthen_def)
  next
    case Stop
    with m c show ?thesis by (simp add: andthen_def)
  next
    case (Raise e)
    with m c show ?thesis by (simp add: andthen_def)
  qed
qed

lemma keeps_basic:
  "keeps_cache (emit e)" "keeps_cache (emit_all es)" "keeps_cache (return a)"
  "keeps_cache (raise x)" "keeps_cache stop" "keeps_cache (lift r)"
  "keeps_cache (open_rb p)" "keeps_cache (unlink p)" "keeps_cache (os_listdir env d)"
  "keeps_cache (write_file p b)" "keeps_cache (NamedTemporaryFile env suffix)"
  "keeps_cache (call_predict m source c save)" "keeps_cache (first_result results)"
  by (auto simp: keeps_cache_def emit_def emit_all_def return_def raise_def stop_def lift_def
      open_rb_def unlink_def os_listdir_def write_file_def NamedTemporaryFile_def
      call_predict_def first_result_def split: option.splits sum.splits list.splits)

lemma keeps_write_temp: "keeps_cache (write_temp env suffix b)"
  by (simp add: write_temp_def keeps_andthen keeps_basic)

lemma keeps_PIL_open: "keeps_cache (PIL_open env p)"
  unfolding PIL_open_def
  by (intro keeps_andthen keeps_basic) (simp add: keeps_basic split: sum.splits)

lemma keeps_st_video: "keeps_cache (st_video p)"
  by (simp add: st_video_def keeps_andthen keeps_basic)

lemma keeps_summary: "keeps_cache (summary env labels)"
  by (simp add: keeps_cache_def summary_eq)

lemma keeps_show_processed: "keeps_cache (show_processed env d)"
  unfolding show_processed_def
  by (intro keeps_andthen keeps_basic)
    (simp add: keeps_andthen keeps_basic keeps_st_video split: list.splits)

lemma keeps_image_mode: "keeps_cache (image_mode env inp m)"
  unfolding image_mode_def image_tempfile_def
  by (intro keeps_andthen keeps_basic)
    (simp add: keeps_andthen keeps_basic keeps_write_temp keeps_PIL_open keeps_summary
      split: option.splits)

lemma keeps_video_mode: "keeps_cache (video_mode env inp m)"
  unfolding video_mode_def video_tempfile_def
  by (intro keeps_andthen keeps_basic)
    (simp add: keeps_andthen keeps_basic keeps_write_temp keeps_st_video keeps_show_processed
      split: option.splits)

lemma run_loaded:
  assumes "fst (load_model env (model_path inp) s) = Inr m"
  shows "run env inp s =
    (case mode inp of
       Image \<Rightarrow> image_mode env inp m (s\<lparr>ui := [], cache := Some m\<rparr>)
     | Video \<Rightarrow> video_mode env inp m (s\<lparr>ui := [], cache := Some m\<rparr>))"
proof -
  have "fst (load_model env (model_path inp) (s\<lparr>ui := []\<rparr>)) = Inr m"
    using assms by (simp add: load_model_def split: option.splits sum.splits)
  from load_model_InrD [OF this] show ?thesis
    by (cases "mode inp") (simp_all add: run_def app_def)
qed

lemma run_cached:
  assumes "cache s = Some m"
  shows "run env inp s =
    (case mode inp of
       Image \<Rightarrow> image_mode env inp m (s\<lparr>ui := []\<rparr>)
     | Video \<Rightarrow> video_mode env inp m (s\<lparr>ui := []\<rparr>))"
  using assms by (simp add: run_def app_def load_model_def)

lemma run_keeps_cached:
  assumes "cache s = Some m"
  shows "cache (snd (run env inp s)) = Some m"
proof (cases "mode inp")
  case Image
  with assms show ?thesis
    using keeps_cacheD [OF keeps_image_mode, of env inp m "s\<lparr>ui := []\<rparr>"]
    by (simp add: run_cached)
next
  case Video
  with assms show ?thesis
    using keeps_cacheD [OF keeps_video_mode, of env inp m "s\<lparr>ui := []\<rparr>"]
    by (simp add: run_cached)
qed

lemma session_keeps_cached: "cache s = Some m \<Longrightarrow> cache (session runs s) = Some m"
proof (induction runs arbitrary: s)
  case Nil
  then show ?case by simp
next
  case (Cons x runs)
  obtain env inp where x: "x = (env, inp)" by (cases x)
  from Cons.prems have "cache (snd (run env inp s)) = Some m"
    by (rule run_keeps_cached)
  then show ?case
    using Cons.IH x by simp
qed

lemma temp_path_YOLO: "temp_path (env\<lparr>YOLO := y\<rparr>) = temp_path env"
  by (intro ext) (simp add: temp_path_def)

lemma NamedTemporaryFile_YOLO: "NamedTemporaryFile (env\<lparr>YOLO := y\<rparr>) = NamedTemporaryFile env"
  by (intro ext) (simp add: NamedTemporaryFile_def temp_name_def temp_path_YOLO)

lemma os_listdir_YOLO: "os_listdir (env\<lparr>YOLO := y\<rparr>) = os_listdir env"
  by (intro ext) (simp add: os_listdir_def)

lemma PIL_open_YOLO: "PIL_open (env\<lparr>YOLO := y\<rparr>) = PIL_open env"
  by (intro ext) (simp add: PIL_open_def)

lemma summary_YOLO: "summary (env\<lparr>YOLO := y\<rparr>) = summary env"
  by (intro ext) (simp add: summary_def)

lemmas YOLO_unused = NamedTemporaryFile_YOLO os_listdir_YOLO PIL_open_YOLO summary_YOLO

lemma image_mode_indep:
  "image_mode (env\<lparr>YOLO := y\<rparr>) (inp\<lparr>model_path := p\<rparr>) m = image_mode env inp m"
  by (cases "uploaded inp")
    (simp_all add: image_mode_def image_tempfile_def write_temp_def YOLO_unused)

lemma video_mode_indep:
  "video_mode (env\<lparr>YOLO := y\<rparr>) (inp\<lparr>model_path := p\<rparr>) m = video_mode env inp m"
  by (cases "uploaded inp")
    (simp_all add: video_mode_def video_tempfile_def write_temp_def show_processed_def
      YOLO_unused)

text \<open>
  C3 (as the code has it). When no detector is cached in the process and the detector
  cannot be constructed from the model path, the run puts the error with the text of the
  exception on the page and stops there: it ends with \<^verbatim>\<open>st.stop()\<close> and not with an
  exception, no uploader is shown, no file is written and nothing is processed. (With a
  detector in the cache the model path is not read at all, see C10: the run then goes on
  with the cached detector also when the path is unreadable.)
\<close>

theorem load_failure_halts:
  assumes "cache s = None" and "YOLO env (model_path inp) = Inl e"
  shows "run env inp s = (Stop, s\<lparr>ui := [Error_box (''Could not load model: '' @ e)]\<rparr>)"
  using assms
  by (simp add: run_def app_def load_model_def andthen_def emit_def stop_def)

text \<open>
  C10. The detector is memoized without a key. With a detector in the cache a run uses
  that detector and is the same run whatever the model path and whatever the constructor
  would do with it, and it leaves the detector in the cache; so from the first successful
  construction on, every later run of the process uses the detector built from the model
  path of that run.
\<close>

theorem cached_detector_reused:
  "(cache s = Some m \<longrightarrow>
      run env inp s =
        (case mode inp of
           Image \<Rightarrow> image_mode env inp m (s\<lparr>ui := []\<rparr>)
         | Video \<Rightarrow> video_mode env inp m (s\<lparr>ui := []\<rparr>)) \<and>
      run (env\<lparr>YOLO := y\<rparr>) (inp\<lparr>model_path := p\<rparr>) s = run env inp s \<and>
      cache (snd (run env inp s)) = Some m) \<and>
   (cache s = None \<and> YOLO env (model_path inp) = Inr m \<longrightarrow>
      cache (session ((env, inp) # later) s) = Some m)"
proof (intro conjI impI)
  assume c: "cache s = Some m"
  then show "run env inp s =
      (case mode inp of
         Image \<Rightarrow> image_mode env inp m (s\<lparr>ui := []\<rparr>)
       | Video \<Rightarrow> video_mode env inp m (s\<lparr>ui := []\<rparr>))"
    by (rule run_cached)
  from c show "run (env\<lparr>YOLO := y\<rparr>) (inp\<lparr>model_path := p\<rparr>) s = run env inp s"
    by (cases "mode inp") (simp_all add: run_cached image_mode_indep video_mode_indep)
  from c show "cache (snd (run env inp s)) = Some m"
    by (rule run_keeps_cached)
next
  assume a: "cache s = None \<and> YOLO env (model_path inp) = Inr m"
  then have "fst (load_model env (model_path inp) s) = Inr m"
    by (simp add: load_model_def)
  then have r: "run env inp s =
      (case mode inp of
         Image \<Rightarrow> image_mode env inp m (s\<lparr>ui := [], cache := Some m\<rparr>)
       | Video \<Rightarrow> video_mode env inp m (s\<lparr>ui := [], cache := Some m\<rparr>))"
    by (rule run_loaded)
  have "cache (snd (run env inp s)) = Some m"
  proof (cases "mode inp")
    case Image
    with r show ?thesis
      using keeps_cacheD [OF keeps_image_mode, of env inp m "s\<lparr>ui := [], cache := Some m\<rparr>"]
      by simp
  next
    case Video
    with r show ?thesis
      using keeps_cacheD [OF keeps_video_mode, of env inp m "s\<lparr>ui := [], cache := Some m\<rparr>"]
      by simp
  qed
  then show "cache (session ((env, inp) # later) s) = Some m"
    by (simp add: session_keeps_cached)
qed

lemmas exec_defs = run_def app_def load_model_def image_mode_def video_mode_def
  image_tempfile_def video_tempfile_def video_suffix_def write_temp_def
  NamedTemporaryFile_def temp_name_def temp_path_def join_def write_file_def open_rb_def
  unlink_def os_listdir_def PIL_open_def st_video_def call_predict_def first_result_def
  cvtColor_BGR2RGB_def lift_def summary_def count_cards_def counts_def set_iter_def
  show_processed_def is_pred_video_def endswith_def andthen_def emit_def emit_all_def
  return_def raise_def stop_def demo_env_def demo_detector_def cold_state_def warm_state_def
  image_inputs_def video_inputs_def

theorem load_failure_halts_witness:
  "run demo_env (image_inputs\<lparr>model_path := ''missing.pt''\<rparr>) cold_state =
     (Stop, cold_state\<lparr>ui := [Error_box ''Could not load model: No such file'']\<rparr>)"
proof -
  have "cache cold_state = None"
    by (simp add: cold_state_def)
  moreover have "YOLO demo_env (model_path (image_inputs\<lparr>model_path := ''missing.pt''\<rparr>)) =
      Inl ''No such file''"
    by (simp add: demo_env_def)
  ultimately show ?thesis
    using load_failure_halts [of cold_state demo_env
        "image_inputs\<lparr>model_path := ''missing.pt''\<rparr>" "''No such file''"]
    by simp
qed

text \<open>
  With the detector of an earlier run in the cache, a run whose model path cannot be
  loaded processes the uploaded video to the end.
\<close>

theorem load_failure_cached_counterexample:
  "YOLO demo_env (model_path (video_inputs\<lparr>model_path := ''missing.pt''\<rparr>)) =
     Inl ''No such file'' \<and>
   fst (run demo_env (video_inputs\<lparr>model_path := ''missing.pt''\<rparr>) warm_state) = Val () \<and>
   ui (snd (run demo_env (video_inputs\<lparr>model_path := ''missing.pt''\<rparr>) warm_state)) =
     [File_uploader ''Upload a Video'' [''mp4'', ''mov'', ''avi'', ''mkv''],
      Markdown ''Original Video'', Show_video ''/tmp/tmpab12.mp4'' [1, 2],
      Info_box ''Processing video...'', Markdown ''Processed Video'',
      Show_video ''runs/detect/fruit_ui/tmpab12.avi'' [7, 7],
      Download_button ''Download Processed Video'' [7, 7]
        ''detected_fruit_video.mp4'' ''video/mp4'']"
  by (simp add: exec_defs)

theorem cached_detector_reused_witness:
  "run (demo_env\<lparr>YOLO := \<lambda>p. Inl ''gone''\<rparr>) (image_inputs\<lparr>model_path := ''other.pt''\<rparr>)
     warm_state = run demo_env image_inputs warm_state \<and>
   cache (snd (run demo_env image_inputs warm_state)) = Some demo_detector \<and>
   cache (session [(demo_env, video_inputs),
      (demo_env\<lparr>YOLO := \<lambda>p. Inl ''gone''\<rparr>, image_inputs\<lparr>model_path := ''other.pt''\<rparr>)]
      cold_state) = Some demo_detector"
proof -
  have w: "cache warm_state = Some demo_detector"
    by (simp add: warm_state_def)
  have c: "cache cold_state = None \<and> YOLO demo_env (model_path video_inputs) = Inr demo_detector"
    by (simp add: cold_state_def demo_env_def video_inputs_def)
  have 1: "run (demo_env\<lparr>YOLO := \<lambda>p. Inl ''gone''\<rparr>) (image_inputs\<lparr>model_path := ''other.pt''\<rparr>)
      warm_state = run demo_env image_inputs warm_state \<and>
    cache (snd (run demo_env image_inputs warm_state)) = Some demo_detector"
    using w cached_detector_reused [of warm_state demo_detector demo_env image_inputs
        "\<lambda>p. Inl ''gone''" "''other.pt''" "[]"]
    by blast
  have 2: "cache (session [(demo_env, video_inputs),
      (demo_env\<lparr>YOLO := \<lambda>p. Inl ''gone''\<rparr>, image_inputs\<lparr>model_path := ''other.pt''\<rparr>)]
      cold_state) = Some demo_detector"
    using c cached_detector_reused [of cold_state demo_detector demo_env video_inputs
        "\<lambda>p. Inl ''gone''" "''other.pt''"
        "[(demo_env\<lparr>YOLO := \<lambda>p. Inl ''gone''\<rparr>, image_inputs\<lparr>model_path := ''other.pt''\<rparr>)]"]
    by blast
  from 1 2 show ?thesis by blast
qed

subsection \<open>Whole runs of the two branches\<close>

lemma show_processed_Val_iff:
  "show_processed env d s = (Val u, s') \<longleftrightarrow>
   (\<exists>fnames tail.
      listdir env (fs s) d = Inr fnames \<and> s' = s\<lparr>ui := ui s @ tail\<rparr> \<and>
      (find is_pred_video fnames = None \<and> tail = [Warning_box ''Processed video not found''] \<or>
       (\<exists>f content.
          find is_pred_video fnames = Some f \<and> fs s (join d f) = Some content \<and>
          tail = [Markdown ''Processed Video'', Show_video (join d f) content,
                  Download_button ''Download Processed Video'' content
                    ''detected_fruit_video.mp4'' ''video/mp4''])))"
proof (cases "listdir env (fs s) d")
  case (Inl e)
  then show ?thesis
    by (simp add: show_processed_def os_listdir_def andthen_def)
next
  case (Inr fnames)
  show ?thesis
  proof (cases "find is_pred_video fnames")
    case None
    with Inr show ?thesis
      by (auto simp: show_processed_eq [OF Inr])
  next
    case (Some f)
    with Inr show ?thesis
      by (cases "fs s (join d f)") (auto simp: show_processed_eq [OF Inr])
  qed
qed

lemma video_mode_Val_iff:
  assumes "uploaded inp = Some up"
  shows "video_mode env inp m s = (Val (), s') \<longleftrightarrow>
    (\<exists>p r rest fs2 fnames tail.
       temp_name env (video_suffix (upload_name up)) (fs s) = Some p \<and>
       predict m p (conf inp) True ((fs s)(p \<mapsto> upload_data up)) = Inr (r # rest, fs2) \<and>
       listdir env fs2 (save_dir r) = Inr fnames \<and>
       fs2 p \<noteq> None \<and>
       s' = s\<lparr>fs := fs2(p := None),
              ui := ui s @
                [File_uploader ''Upload a Video'' [''mp4'', ''mov'', ''avi'', ''mkv''],
                 Markdown ''Original Video'', Show_video p (upload_data up),
                 Info_box ''Processing video...''] @ tail\<rparr> \<and>
       (find is_pred_video fnames = None \<and> tail = [Warning_box ''Processed video not found''] \<or>
        (\<exists>f content.
           find is_pred_video fnames = Some f \<and>
           fs2 (join (save_dir r) f) = Some content \<and>
           tail = [Markdown ''Processed Video'', Show_video (join (save_dir r) f) content,
                   Download_button ''Download Processed Video'' content
                     ''detected_fruit_video.mp4'' ''video/mp4''])))"
  using assms
  by (auto simp add: video_mode_def video_tempfile_def Val_iffs show_processed_Val_iff)

lemma run_not_loaded:
  assumes "fst (load_model env (model_path inp) s) = Inl e"
  shows "fst (run env inp s) = Stop"
proof -
  have "fst (load_model env (model_path inp) (s\<lparr>ui := []\<rparr>)) = Inl e"
    using assms by (simp add: load_model_def split: option.splits sum.splits)
  then show ?thesis
    by (cases "load_model env (model_path inp) (s\<lparr>ui := []\<rparr>)")
      (simp add: run_def app_def andthen_def emit_def stop_def)
qed

lemma count_cards_only: "e \<in> set (count_cards cs) \<Longrightarrow> \<exists>i fruit n. e = Count_card i fruit n"
  by (auto simp: count_cards_def)

text \<open>
  C9. In the video branch, when the listing of the output directory has a name with a
  recognised extension (mp4, avi, mov or mkv alike) and the file is there, the run ends
  normally and its last element is the download button that serves the bytes of that
  file under the file name detected_fruit_video.mp4 with the MIME type video/mp4.
\<close>

theorem download_fixed_name:
  assumes "mode inp = Video" and "uploaded inp = Some up"
    and "fst (load_model env (model_path inp) s) = Inr m"
    and "temp_name env (video_suffix (upload_name up)) (fs s) = Some p"
    and "predict m p (conf inp) True ((fs s)(p \<mapsto> upload_data up)) = Inr (r # rest, fs2)"
    and "listdir env fs2 (save_dir r) = Inr fnames"
    and "find (\<lambda>f. extension f \<in> {Some ''mp4'', Some ''avi'', Some ''mov'', Some ''mkv''})
           fnames = Some f"
    and "fs2 (join (save_dir r) f) = Some content"
    and "fs2 p \<noteq> None"
  shows "run env inp s =
    (Val (), s\<lparr>cache := Some m, fs := fs2(p := None),
       ui :=
         [File_uploader ''Upload a Video'' [''mp4'', ''mov'', ''avi'', ''mkv''],
          Markdown ''Original Video'', Show_video p (upload_data up),
          Info_box ''Processing video...'', Markdown ''Processed Video'',
          Show_video (join (save_dir r) f) content,
          Download_button ''Download Processed Video'' content
            ''detected_fruit_video.mp4'' ''video/mp4'']\<rparr>)"
proof -
  have "find (\<lambda>f. extension f \<in> {Some ''mp4'', Some ''avi'', Some ''mov'', Some ''mkv''})
      fnames = find is_pred_video fnames"
    by (rule find_cong_iff) (simp only: is_pred_video_iff)
  with assms(7) have f: "find is_pred_video fnames = Some f" by simp
  have "run env inp s = video_mode env inp m (s\<lparr>ui := [], cache := Some m\<rparr>)"
    using assms(1) run_loaded [OF assms(3)] by simp
  also have "\<dots> = (Val (), s\<lparr>cache := Some m, fs := fs2(p := None),
       ui :=
         [File_uploader ''Upload a Video'' [''mp4'', ''mov'', ''avi'', ''mkv''],
          Markdown ''Original Video'', Show_video p (upload_data up),
          Info_box ''Processing video...'', Markdown ''Processed Video'',
          Show_video (join (save_dir r) f) content,
          Download_button ''Download Processed Video'' content
            ''detected_fruit_video.mp4'' ''video/mp4'']\<rparr>)"
    using assms(4,5,6,8,9) f
    by (auto simp add: video_mode_Val_iff [OF assms(2)])
  finally show ?thesis .
qed

text \<open>
  C6. In both branches, when a run with an upload ends normally, the temporary file made
  for the upload existed after the detector returned and is gone at the end, with or
  without detections; nothing else that the detector left on disk is removed, and every
  video the page shows other than the temporary input (the output video of the video
  branch) is still on disk with the content shown.
\<close>

theorem temp_input_removed:
  assumes "run env inp s = (Val (), s')" and "uploaded inp = Some up"
  shows "\<exists>p m results fs2.
     temp_name env
       (case mode inp of Image \<Rightarrow> ''.jpg'' | Video \<Rightarrow> video_suffix (upload_name up))
       (fs s) = Some p \<and>
     fst (load_model env (model_path inp) s) = Inr m \<and>
     predict m p (conf inp) (mode inp = Video) ((fs s)(p \<mapsto> upload_data up)) =
       Inr (results, fs2) \<and>
     fs2 p \<noteq> None \<and> fs s' = fs2(p := None) \<and>
     (\<forall>q content. Show_video q content \<in> set (ui s') \<and> q \<noteq> p \<longrightarrow> fs s' q = Some content)"
proof (cases "fst (load_model env (model_path inp) s)")
  case (Inl e)
  then have "fst (run env inp s) = Stop" by (rule run_not_loaded)
  with assms(1) show ?thesis by simp
next
  case (Inr m)
  note run = run_loaded [OF Inr]
  show ?thesis
  proof (cases "mode inp")
    case Image
    let ?s0 = "s\<lparr>ui := [], cache := Some m\<rparr>"
    from Image run assms(1) have "image_mode env inp m ?s0 = (Val (), s')" by simp
    then obtain p img r rest fs2 labels where
      p: "temp_name env ''.jpg'' (fs ?s0) = Some p" and
      pr: "predict m p (conf inp) False ((fs ?s0)(p \<mapsto> upload_data up)) = Inr (r # rest, fs2)" and
      ex: "fs2 p \<noteq> None" and
      s': "s' = ?s0\<lparr>fs := fs2(p := None),
              ui := ui ?s0 @
                [File_uploader ''Upload an Image'' [''jpg'', ''jpeg'', ''png''],
                 Markdown ''Original Image'', Show_image img,
                 Info_box ''Detecting fruits...'', Markdown ''Detected Image'',
                 Show_image (cvtColor_BGR2RGB (plot r))] @
                (if labels \<noteq> []
                 then Markdown ''Fruit Detection Summary'' #
                      Columns (length (counts (set_rank env) labels)) #
                      count_cards (counts (set_rank env) labels)
                 else [Warning_box ''No fruits detected''])\<rparr>"
      unfolding image_mode_Val_iff [OF assms(2)] by blast
    from s' have fs': "fs s' = fs2(p := None)" by simp
    from s' have "\<And>q content. Show_video q content \<notin> set (ui s')"
      by (auto dest: count_cards_only)
    with Image Inr p pr ex fs' show ?thesis by auto
  next
    case Video
    let ?s0 = "s\<lparr>ui := [], cache := Some m\<rparr>"
    from Video run assms(1) have "video_mode env inp m ?s0 = (Val (), s')" by simp
    then obtain p r rest fs2 fnames tail where
      p: "temp_name env (video_suffix (upload_name up)) (fs ?s0) = Some p" and
      pr: "predict m p (conf inp) True ((fs ?s0)(p \<mapsto> upload_data up)) = Inr (r # rest, fs2)" and
      ex: "fs2 p \<noteq> None" and
      s': "s' = ?s0\<lparr>fs := fs2(p := None),
              ui := ui ?s0 @
                [File_uploader ''Upload a Video'' [''mp4'', ''mov'', ''avi'', ''mkv''],
                 Markdown ''Original Video'', Show_video p (upload_data up),
                 Info_box ''Processing video...''] @ tail\<rparr>" and
      tail: "find is_pred_video fnames = None \<and>
             tail = [Warning_box ''Processed video not found''] \<or>
        (\<exists>f content.
           find is_pred_video fnames = Some f \<and>
           fs2 (join (save_dir r) f) = Some content \<and>
           tail = [Markdown ''Processed Video'', Show_video (join (save_dir r) f) content,
                   Download_button ''Download Processed Video'' content
                     ''detected_fruit_video.mp4'' ''video/mp4''])"
      unfolding video_mode_Val_iff [OF assms(2)] by blast
    from s' have fs': "fs s' = fs2(p := None)" by simp
    have "fs s' q = Some content" if "Show_video q content \<in> set (ui s')" and "q \<noteq> p"
      for q content
      using that tail s' by auto
    with Video Inr p pr ex fs' show ?thesis by auto
  qed
qed

theorem download_fixed_name_witness:
  "fst (run demo_env video_inputs cold_state) = Val () \<and>
   ui (snd (run demo_env video_inputs cold_state)) =
     [File_uploader ''Upload a Video'' [''mp4'', ''mov'', ''avi'', ''mkv''],
      Markdown ''Original Video'', Show_video ''/tmp/tmpab12.mp4'' [1, 2],
      Info_box ''Processing video...'', Markdown ''Processed Video'',
      Show_video ''runs/detect/fruit_ui/tmpab12.avi'' [7, 7],
      Download_button ''Download Processed Video'' [7, 7]
        ''detected_fruit_video.mp4'' ''video/mp4'']"
proof -
  let ?up = "\<lparr>upload_name = ''my.clip.mp4'', upload_data = [1, 2]\<rparr>"
  let ?p = "''/tmp/tmpab12.mp4''"
  let ?r = "\<lparr>boxes = [], plot = [], save_dir = ''runs/detect/fruit_ui''\<rparr>"
  let ?fs2 = "(fs cold_state)(?p \<mapsto> upload_data ?up, ''runs/detect/fruit_ui/tmpab12.avi'' \<mapsto> [7, 7])"
  have 1: "mode video_inputs = Video" and 2: "uploaded video_inputs = Some ?up"
    by (simp_all add: video_inputs_def)
  have 3: "fst (load_model demo_env (model_path video_inputs) cold_state) = Inr demo_detector"
    by (simp add: load_model_def cold_state_def demo_env_def video_inputs_def)
  have 4: "temp_name demo_env (video_suffix (upload_name ?up)) (fs cold_state) = Some ?p"
    by (simp add: temp_name_def temp_path_def join_def video_suffix_def demo_env_def
        cold_state_def)
  have 5: "predict demo_detector ?p (conf video_inputs) True
      ((fs cold_state)(?p \<mapsto> upload_data ?up)) = Inr (?r # [], ?fs2)"
    by (simp add: demo_detector_def)
  have 6: "listdir demo_env ?fs2 (save_dir ?r) = Inr [''labels.txt'', ''tmpab12.avi'']"
    by (simp add: demo_env_def)
  have 7: "find (\<lambda>f. extension f \<in> {Some ''mp4'', Some ''avi'', Some ''mov'', Some ''mkv''})
      [''labels.txt'', ''tmpab12.avi''] = Some ''tmpab12.avi''"
    by (simp add: extension_def)
  have 8: "?fs2 (join (save_dir ?r) ''tmpab12.avi'') = Some [7, 7]"
    by (simp add: join_def)
  have 9: "?fs2 ?p \<noteq> None"
    by simp
  from download_fixed_name [OF 1 2 3 4 5 6 7 8 9] show ?thesis
    by (simp add: join_def)
qed

theorem temp_input_removed_witness:
  "fst (run demo_env video_inputs cold_state) = Val () \<and>
   fs (snd (run demo_env video_inputs cold_state)) ''/tmp/tmpab12.mp4'' = None \<and>
   fs (snd (run demo_env video_inputs cold_state)) ''runs/detect/fruit_ui/tmpab12.avi'' =
     Some [7, 7]"
proof -
  let ?s' = "snd (run demo_env video_inputs cold_state)"
  let ?up = "\<lparr>upload_name = ''my.clip.mp4'', upload_data = [1, 2]\<rparr>"
  have ok: "fst (run demo_env video_inputs cold_state) = Val ()"
    by (simp add: exec_defs)
  then have 1: "run demo_env video_inputs cold_state = (Val (), ?s')"
    by (metis prod.collapse)
  have 2: "uploaded video_inputs = Some ?up"
    by (simp add: video_inputs_def)
  have ui: "Show_video ''runs/detect/fruit_ui/tmpab12.avi'' [7, 7] \<in> set (ui ?s')"
    by (simp add: exec_defs)
  have t: "temp_name demo_env
      (case mode video_inputs of Image \<Rightarrow> ''.jpg'' | Video \<Rightarrow> video_suffix (upload_name ?up))
      (fs cold_state) = Some ''/tmp/tmpab12.mp4''"
    by (simp add: temp_name_def temp_path_def join_def video_suffix_def demo_env_def
        cold_state_def video_inputs_def)
  from temp_input_removed [OF 1 2] obtain p fs2 where
    p: "temp_name demo_env
      (case mode video_inputs of Image \<Rightarrow> ''.jpg'' | Video \<Rightarrow> video_suffix (upload_name ?up))
      (fs cold_state) = Some p" and
    gone: "fs ?s' = fs2(p := None)" and
    kept: "\<forall>q content. Show_video q content \<in> set (ui ?s') \<and> q \<noteq> p \<longrightarrow>
      fs ?s' q = Some content"
    by blast
  from p t have p': "p = ''/tmp/tmpab12.mp4''" by simp
  from gone have "fs ?s' p = None" by simp
  moreover from kept ui p' have "fs ?s' ''runs/detect/fruit_ui/tmpab12.avi'' = Some [7, 7]"
    by auto
  ultimately show ?thesis
    using ok p' by simp
qed

lemma remainder_ui:
  "\<exists>more. ui (snd (andthen (lift x) (\<lambda>labels. andthen (summary env labels) (\<lambda>_. unlink p)) s)) =
      ui s @ more \<and> (\<forall>f. Show_image f \<notin> set more)"
proof (cases x)
  case (Inl e)
  then show ?thesis
    by (simp add: andthen_def lift_def raise_def)
next
  case (Inr labels)
  let ?es = "if labels \<noteq> []
         then Markdown ''Fruit Detection Summary'' #
              Columns (length (counts (set_rank env) labels)) #
              count_cards (counts (set_rank env) labels)
         else [Warning_box ''No fruits detected'']"
  have no: "\<forall>f. Show_image f \<notin> set ?es"
    by (auto dest: count_cards_only)
  have "ui (snd (andthen (lift x) (\<lambda>labels. andthen (summary env labels) (\<lambda>_. unlink p)) s)) =
      ui s @ ?es"
    using Inr
    by (cases "fs s p")
      (simp_all add: andthen_def lift_def return_def summary_eq unlink_def
        split del: if_split)
  with no show ?thesis by blast
qed

text \<open>
  C5. In the image branch, once the detector has returned, the image put on the page
  under the heading of the detected image is the annotated frame after the conversion
  from BGR to RGB (every pixel with its first and third channel exchanged); apart from
  the original image before it, the run shows no other image, so the raw frame of the
  detector is never what is displayed.
\<close>

theorem detected_image_converted:
  assumes "mode inp = Image" and "uploaded inp = Some up"
    and "fst (load_model env (model_path inp) s) = Inr m"
    and "temp_name env ''.jpg'' (fs s) = Some p"
    and "Image_open env (upload_data up) = Inr img"
    and "predict m p (conf inp) False ((fs s)(p \<mapsto> upload_data up)) = Inr (res # rest, fs2)"
  shows "(\<exists>more.
      ui (snd (run env inp s)) =
        [File_uploader ''Upload an Image'' [''jpg'', ''jpeg'', ''png''],
         Markdown ''Original Image'', Show_image img,
         Info_box ''Detecting fruits...'', Markdown ''Detected Image'',
         Show_image (cvtColor_BGR2RGB (plot res))] @ more \<and>
      (\<forall>f. Show_image f \<notin> set more)) \<and>
    (\<forall>i j. i < length (plot res) \<and> j < length (plot res ! i) \<longrightarrow>
      cvtColor_BGR2RGB (plot res) ! i ! j = (case plot res ! i ! j of (b, g, r) \<Rightarrow> (r, g, b)))"
proof
  let ?s3 = "s\<lparr>cache := Some m, fs := fs2,
       ui := [File_uploader ''Upload an Image'' [''jpg'', ''jpeg'', ''png''],
         Markdown ''Original Image'', Show_image img,
         Info_box ''Detecting fruits...'', Markdown ''Detected Image'',
         Show_image (cvtColor_BGR2RGB (plot res))]\<rparr>"
  have "run env inp s = image_mode env inp m (s\<lparr>ui := [], cache := Some m\<rparr>)"
    using assms(1) run_loaded [OF assms(3)] by simp
  also have "\<dots> = andthen (lift (labels_of (names m) (boxes res)))
      (\<lambda>labels. andthen (summary env labels) (\<lambda>_. unlink p)) ?s3"
    using assms(2,4,5,6)
    by (simp add: image_mode_def image_tempfile_def write_temp_def NamedTemporaryFile_def
        write_file_def PIL_open_def open_rb_def call_predict_def first_result_def
        andthen_def emit_def return_def)
  finally have "run env inp s = andthen (lift (labels_of (names m) (boxes res)))
      (\<lambda>labels. andthen (summary env labels) (\<lambda>_. unlink p)) ?s3" .
  with remainder_ui [of "labels_of (names m) (boxes res)" env p ?s3]
  show "\<exists>more.
      ui (snd (run env inp s)) =
        [File_uploader ''Upload an Image'' [''jpg'', ''jpeg'', ''png''],
         Markdown ''Original Image'', Show_image img,
         Info_box ''Detecting fruits...'', Markdown ''Detected Image'',
         Show_image (cvtColor_BGR2RGB (plot res))] @ more \<and>
      (\<forall>f. Show_image f \<notin> set more)"
    by simp
next
  show "\<forall>i j. i < length (plot res) \<and> j < length (plot res ! i) \<longrightarrow>
      cvtColor_BGR2RGB (plot res) ! i ! j = (case plot res ! i ! j of (b, g, r) \<Rightarrow> (r, g, b))"
    by (simp add: cvtColor_BGR2RGB_def)
qed

theorem detected_image_converted_witness:
  "ui (snd (run demo_env image_inputs cold_state)) =
     [File_uploader ''Upload an Image'' [''jpg'', ''jpeg'', ''png''],
      Markdown ''Original Image'', Show_image [[(9, 9, 9)]],
      Info_box ''Detecting fruits...'', Markdown ''Detected Image'',
      Show_image [[(3, 2, 1)]], Markdown ''Fruit Detection Summary'', Columns 2,
      Count_card 0 ''apple'' 2, Count_card 1 ''banana'' 1] \<and>
   cvtColor_BGR2RGB [[(1, 2, 3)]] ! 0 ! 0 = (3, 2, 1)"
proof -
  let ?up = "\<lparr>upload_name = ''basket.png'', upload_data = [1, 2]\<rparr>"
  let ?p = "''/tmp/tmpab12.jpg''"
  let ?res = "\<lparr>boxes = [0, 1, 0], plot = [[(1, 2, 3)]], save_dir = ''runs/detect/fruit_ui''\<rparr>"
  have 1: "mode image_inputs = Image" and 2: "uploaded image_inputs = Some ?up"
    by (simp_all add: image_inputs_def)
  have 3: "fst (load_model demo_env (model_path image_inputs) cold_state) = Inr demo_detector"
    by (simp add: load_model_def cold_state_def demo_env_def image_inputs_def)
  have 4: "temp_name demo_env ''.jpg'' (fs cold_state) = Some ?p"
    by (simp add: temp_name_def temp_path_def join_def demo_env_def cold_state_def)
  have 5: "Image_open demo_env (upload_data ?up) = Inr [[(9, 9, 9)]]"
    by (simp add: demo_env_def)
  have 6: "predict demo_detector ?p (conf image_inputs) False
      ((fs cold_state)(?p \<mapsto> upload_data ?up)) =
      Inr (?res # [], (fs cold_state)(?p \<mapsto> upload_data ?up))"
    by (simp add: demo_detector_def)
  from detected_image_converted [OF 1 2 3 4 5 6] show ?thesis
    by (simp add: exec_defs)
qed

end
